theory Spec2Isabelle
  imports Complex_Main "HOL-Library.Sublist" "HOL-Library.Signed_Division"
begin

section \<open>Curves\<close>

text \<open>
  A \<^verbatim>\<open>TGraph\<close> holds \<^verbatim>\<open>fNpoints\<close> samples \<^verbatim>\<open>(fX[i], fY[i])\<close>.
  It is modelled as the list of its samples; a \<^verbatim>\<open>TGraph *\<close> that may be null is a
  \<open>TGraph option\<close>. The \<^verbatim>\<open>double\<close> values are modelled as real numbers: rounding,
  infinities and NaN are outside the model.
\<close>

type_synonym TGraph = "(real \<times> real) list"

definition GetN :: "TGraph \<Rightarrow> nat" where
  "GetN gr = length gr"

definition GetX :: "TGraph \<Rightarrow> real list" where
  "GetX gr = map fst gr"

definition GetY :: "TGraph \<Rightarrow> real list" where
  "GetY gr = map snd gr"

text \<open>
  What the C++ leaves undefined (a read past the end of an array, a division by zero)
  is a fault of the model, so that no theorem can rest on an unspecified value.
\<close>

datatype fault = IndexOutOfRange | DivisionByZero | NullPointer

section \<open>DrawRatio (gXSecComp.cxx)\<close>

text \<open>
  \<^verbatim>\<open>TGraph::Eval\<close> belongs to the plotting toolkit; it is a parameter \<open>Eval\<close> of the
  model. The body of the loop of \<^verbatim>\<open>DrawRatio\<close> at abscissa \<open>x\<close>:
  \<^verbatim>\<open>
     y[i] = 0;
     if(gr0->Eval(x[i]) != 0. && gr1->Eval(x[i]) != 0.) { y[i] = gr0->Eval(x[i]) / gr1->Eval(x[i]); }
     else { if(gr0->Eval(x[i]) != 0.) { y[i] = -1; } else { y[i] = 1; } }
  \<close>
\<close>

definition ratio_at :: "(TGraph \<Rightarrow> real \<Rightarrow> real) \<Rightarrow> TGraph \<Rightarrow> TGraph \<Rightarrow> real \<Rightarrow> real" where
  "ratio_at Eval gr0 gr1 x =
     (if Eval gr0 x \<noteq> 0 \<and> Eval gr1 x \<noteq> 0 then Eval gr0 x / Eval gr1 x
      else if Eval gr0 x \<noteq> 0 then - 1
      else 1)"

text \<open>
  \<^verbatim>\<open>DrawRatio\<close> returns the new graph (or null); the first component of the result
  is what it writes to the message log (one debug line, after the two null checks).
\<close>

definition DrawRatio ::
  "(TGraph \<Rightarrow> real \<Rightarrow> real) \<Rightarrow> TGraph option \<Rightarrow> TGraph option \<Rightarrow> string list \<times> TGraph option" where
  "DrawRatio Eval gr0 gr1 =
     (case gr0 of
        None \<Rightarrow> ([], None)
      | Some g0 \<Rightarrow>
         (case gr1 of
            None \<Rightarrow> ([], None)
          | Some g1 \<Rightarrow>
             (''Drawing ratio...'' # [],
              Some (map (\<lambda>i. (GetX g0 ! i, ratio_at Eval g0 g1 (GetX g0 ! i))) [0..<GetN g0]))))"

text \<open>
  An evaluation function for concrete examples: at an abscissa that is a sample of the
  graph it returns that sample's ordinate (as every interpolation through the samples
  does), elsewhere 0.
\<close>

definition sample_eval :: "TGraph \<Rightarrow> real \<Rightarrow> real" where
  "sample_eval gr x = (case map_of gr x of Some y \<Rightarrow> y | None \<Rightarrow> 0)"

section \<open>TrimGraph (gXSecComp.cxx)\<close>

text \<open>
  The scan of one pass of the outer loop (the code's decade, counted in \<^verbatim>\<open>ndec\<close>):
  \<^verbatim>\<open>
    for(int i=fp; i<np; i++) {
       remv[i] = false;
       lp = i;
       double x = gr->GetX()[i];
       if(x > xmin && x <= xmax) ndec++;
       if(x > xmax) break;
    }
  \<close>
  The state of the loop is \<open>(lp, ndec, remv)\<close>.
\<close>

function scan_decade ::
  "real list \<Rightarrow> real \<Rightarrow> real \<Rightarrow> nat \<Rightarrow> nat \<times> nat \<times> bool list \<Rightarrow> nat \<times> nat \<times> bool list" where
  "scan_decade X xmin xmax i (lp, ndec, remv) =
     (if i < length X then
        (let remv' = remv[i := False];
             x = X ! i;
             ndec' = (if x > xmin \<and> x \<le> xmax then ndec + 1 else ndec)
         in if x > xmax then (i, ndec', remv')
            else scan_decade X xmin xmax (i + 1) (i, ndec', remv'))
      else (lp, ndec, remv))"
  by pat_completeness auto
termination
  by (relation "measure (\<lambda>(X, xmin, xmax, i, s). length X - i)") auto

declare scan_decade.simps [simp del]

text \<open>
  The thinning of one pass, \<^verbatim>\<open>ithrow % keep_rate\<close> being C's remainder:
  \<^verbatim>\<open>
    for(int i=fp; i<=lp; i++) {
      if(ithrow % keep_rate) { remv[i] = true; }
      ithrow++;
    }
  \<close>
\<close>

function throw_points :: "int \<Rightarrow> nat \<Rightarrow> nat \<Rightarrow> int \<Rightarrow> bool list \<Rightarrow> bool list" where
  "throw_points keep_rate i lp ithrow remv =
     (if i \<le> lp then
        throw_points keep_rate (i + 1) lp (ithrow + 1)
          (if ithrow smod keep_rate \<noteq> 0 then remv[i := True] else remv)
      else remv)"
  by pat_completeness auto
termination
  by (relation "measure (\<lambda>(keep_rate, i, lp, ithrow, remv). Suc lp - i)") auto

declare throw_points.simps [simp del]

text \<open>
  \<^verbatim>\<open>TMath::FloorNint(x)\<close> is \<^verbatim>\<open>TMath::Nint(TMath::Floor(x))\<close>.
\<close>

definition FloorNint :: "real \<Rightarrow> int" where
  "FloorNint x = round (real_of_int \<lfloor>x\<rfloor>)"

text \<open>
  The conditional of the loop body:
  \<^verbatim>\<open>
    if(ndec > max_np_per_decade) {
       double keep_prob = (double)max_np_per_decade/ (double) ndec;
       int keep_rate = TMath::FloorNint(1./keep_prob);
       int ithrow = 0;
       for(int i=fp; i<=lp; i++) { ... }
    }
  \<close>
  The two floating-point divisions by zero (and the remainder by a zero
  \<^verbatim>\<open>keep_rate\<close>) are faults.
\<close>

definition thin_decade :: "int \<Rightarrow> nat \<Rightarrow> nat \<Rightarrow> nat \<Rightarrow> bool list \<Rightarrow> fault + bool list" where
  "thin_decade max_np_per_decade ndec fp lp remv =
     (if int ndec > max_np_per_decade then
        (if ndec = 0 then Inl DivisionByZero
         else
           (let keep_prob = real_of_int max_np_per_decade / real ndec
            in if keep_prob = 0 then Inl DivisionByZero
               else
                 (let keep_rate = FloorNint (1 / keep_prob)
                  in if keep_rate = 0 then Inl DivisionByZero
                     else Inr (throw_points keep_rate fp lp 0 remv))))
      else Inr remv)"

lemma scan_decade_lp:
  "i < length X \<Longrightarrow>
     i \<le> fst (scan_decade X xmin xmax i s) \<and> fst (scan_decade X xmin xmax i s) < length X"
proof (induction X xmin xmax i s rule: scan_decade.induct)
  case (1 X xmin xmax i lp ndec remv)
  note unfold = scan_decade.simps [of X xmin xmax i lp ndec remv]
  show ?case
  proof (cases "X ! i > xmax")
    case True
    with "1.prems" show ?thesis by (simp add: unfold)
  next
    case False
    show ?thesis
    proof (cases "i + 1 < length X")
      case True
      with False "1.prems" "1.IH" [OF "1.prems" refl refl refl False True] show ?thesis
        by (simp add: unfold Let_def)
    next
      case False
      with \<open>\<not> X ! i > xmax\<close> "1.prems" show ?thesis
        by (simp add: unfold Let_def scan_decade.simps [of X xmin xmax "Suc i"])
    qed
  qed
qed

text \<open>
  The outer loop of \<^verbatim>\<open>TrimGraph\<close>:
  \<^verbatim>\<open>
    while(1) {
      double xmin = gr->GetX()[fp];
      double xmax = 10 * xmin;
      int ndec = 0;
      for(...) {...}
      if(ndec > max_np_per_decade) {...}
      if(lp == np-1) break;
      fp = lp+1;
    }
  \<close>
  Reading \<^verbatim>\<open>gr->GetX()[fp]\<close> with \<open>fp\<close> not below \<open>np\<close> is the fault
  \<open>IndexOutOfRange\<close>.
\<close>

function trim_loop :: "real list \<Rightarrow> int \<Rightarrow> nat \<Rightarrow> nat \<Rightarrow> bool list \<Rightarrow> fault + bool list" where
  "trim_loop X max_np_per_decade fp lp remv =
     (if fp < length X then
        (let xmin = X ! fp;
             xmax = 10 * xmin;
             s = scan_decade X xmin xmax fp (lp, 0, remv)
         in case thin_decade max_np_per_decade (fst (snd s)) fp (fst s) (snd (snd s)) of
              Inl e \<Rightarrow> Inl e
            | Inr remv' \<Rightarrow>
                if int (fst s) = int (length X) - 1 then Inr remv'
                else trim_loop X max_np_per_decade (fst s + 1) (fst s) remv')
      else Inl IndexOutOfRange)"
  by pat_completeness auto
termination
proof (relation "measure (\<lambda>(X, K, fp, lp, remv). length X - fp)")
  show "wf (measure (\<lambda>(X, K, fp, lp, remv). length X - fp))" by simp
next
  fix X :: "real list" and max_np_per_decade :: int and fp lp :: nat and remv :: "bool list"
    and xmin xmax :: real and s :: "nat \<times> nat \<times> bool list" and remv' :: "bool list"
  assume fp: "fp < length X" and xmin: "xmin = X ! fp" and xmax: "xmax = 10 * xmin"
    and s: "s = scan_decade X xmin xmax fp (lp, 0, remv)"
  from scan_decade_lp [OF fp, of xmin xmax "(lp, 0, remv)"] s
  have "fp \<le> fst s" and "fst s < length X" by simp_all
  then show "((X, max_np_per_decade, fst s + 1, fst s, remv'), (X, max_np_per_decade, fp, lp, remv))
      \<in> measure (\<lambda>(X, K, fp, lp, remv). length X - fp)"
    by simp
qed

declare trim_loop.simps [simp del]

text \<open>
  \<^verbatim>\<open>TrimGraph\<close>: a null graph gives null; otherwise the flags \<^verbatim>\<open>remv\<close> (all false
  at first, \<^verbatim>\<open>vector<bool> remv(np)\<close>) are computed by the loop and the points not
  flagged are copied, in order, into the new graph.
\<close>

definition TrimGraph_remv :: "TGraph \<Rightarrow> int \<Rightarrow> fault + bool list" where
  "TrimGraph_remv gr max_np_per_decade =
     trim_loop (GetX gr) max_np_per_decade 0 0 (replicate (GetN gr) False)"

definition kept_points :: "TGraph \<Rightarrow> bool list \<Rightarrow> TGraph" where
  "kept_points gr remv =
     map (\<lambda>i. (GetX gr ! i, GetY gr ! i)) (filter (\<lambda>i. \<not> remv ! i) [0..<GetN gr])"

definition TrimGraph :: "TGraph option \<Rightarrow> int \<Rightarrow> fault + TGraph option" where
  "TrimGraph gr max_np_per_decade =
     (case gr of
        None \<Rightarrow> Inr None
      | Some g \<Rightarrow>
         (case TrimGraph_remv g max_np_per_decade of
            Inl e \<Rightarrow> Inl e
          | Inr remv \<Rightarrow> Inr (Some (kept_points g remv))))"

section \<open>The passes of the loop of TrimGraph\<close>




section \<open>The decades of a curve\<close>



section \<open>The globals of gXSecComp.cxx\<close>

text \<open>
  The PDG codes of the probes (\<^verbatim>\<open>PDGCodes.h\<close>, not among the sources) are kept
  symbolic; \<open>kPdgNone\<close> stands for the initial value \<^verbatim>\<open>int pdg = 0\<close>.
\<close>

datatype pdg_code =
  kPdgNone | kPdgNuE | kPdgAntiNuE | kPdgNuMu | kPdgAntiNuMu | kPdgNuTau | kPdgAntiNuTau

text \<open>
  What the program draws goes to one PostScript stream. The stream is modelled as the
  list of the drawing operations and page breaks, in the order of the calls.
\<close>

datatype pad = PadTitle | PadXSecs | PadRatio

datatype canvas_op =
    HeaderDrawn "string option"
  | FrameDrawn pad
  | GraphDrawn pad TGraph string
  | LegendDrawn "(TGraph option \<times> string \<times> string) list"
  | CanvasUpdate
  | NewPage

text \<open>
  A \<^verbatim>\<open>TDirectory\<close> is the map from the names of its graphs to the graphs;
  \<^verbatim>\<open>dir->Get(name)\<close> is the lookup, null when the name is absent.
\<close>

type_synonym TDirectory = "string \<rightharpoonup> TGraph"

record globals =
  gOptXSecFilename_curr :: string
  gOptXSecFilename_ref0 :: string
  gOptOutputFilename :: string
  gOptHaveRef :: bool
  gDirCurr :: "TDirectory option"
  gDirRef0 :: "TDirectory option"
  gLabelCurr :: string
  gLabelRef0 :: string
  gDirName :: string
  gPS :: "canvas_op list"
  gCurrProbeLbl :: string
  gCurrProbePdg :: pdg_code
  gCurrProbeIsNu :: bool
  gCurrProbeIsNuBar :: bool

text \<open>The globals as their declarations initialise them.\<close>

definition globals0 :: globals where
  "globals0 =
     \<lparr>gOptXSecFilename_curr = [], gOptXSecFilename_ref0 = [], gOptOutputFilename = [],
      gOptHaveRef = False, gDirCurr = None, gDirRef0 = None, gLabelCurr = [], gLabelRef0 = [],
      gDirName = [], gPS = [], gCurrProbeLbl = [], gCurrProbePdg = kPdgNone,
      gCurrProbeIsNu = False, gCurrProbeIsNuBar = False\<rparr>"

section \<open>DirNameToProbe (gXSecComp.cxx)\<close>

text \<open>
  \<^verbatim>\<open>std::string::find\<close>: the position of the first occurrence of \<open>pat\<close> in \<open>s\<close>,
  \<open>None\<close> for \<^verbatim>\<open>string::npos\<close>.
\<close>

primrec string_find :: "string \<Rightarrow> string \<Rightarrow> nat option" where
  "string_find [] pat = (if pat = [] then Some 0 else None)"
| "string_find (c # cs) pat =
     (if prefix pat (c # cs) then Some 0 else map_option Suc (string_find cs pat))"

text \<open>
  Modelled from the spec: \<^verbatim>\<open>pdg::IsNeutrino\<close> and \<^verbatim>\<open>pdg::IsAntiNeutrino\<close>
  (\<^verbatim>\<open>PDGUtils\<close>, not among the sources), which tell the neutrino directories from the
  antineutrino ones.
\<close>

definition IsNeutrino :: "pdg_code \<Rightarrow> bool" where
  "IsNeutrino pdg = (pdg = kPdgNuE \<or> pdg = kPdgNuMu \<or> pdg = kPdgNuTau)"

definition IsAntiNeutrino :: "pdg_code \<Rightarrow> bool" where
  "IsAntiNeutrino pdg = (pdg = kPdgAntiNuE \<or> pdg = kPdgAntiNuMu \<or> pdg = kPdgAntiNuTau)"

definition DirNameToProbe :: "globals \<Rightarrow> globals" where
  "DirNameToProbe g =
     (let dirname = gDirName g;
          (label, pdg) =
            (if string_find dirname ''nu_e_bar'' \<noteq> None then (''#bar{#nu_{e}}'', kPdgAntiNuE)
             else if string_find dirname ''nu_e'' \<noteq> None then (''#nu_{e}'', kPdgNuE)
             else if string_find dirname ''nu_mu_bar'' \<noteq> None then (''#bar{#nu_{#mu}}'', kPdgAntiNuMu)
             else if string_find dirname ''nu_mu'' \<noteq> None then (''#nu_{#mu}'', kPdgNuMu)
             else if string_find dirname ''nu_tau_bar'' \<noteq> None then (''#bar{#nu_{#tau}}'', kPdgAntiNuTau)
             else if string_find dirname ''nu_tau'' \<noteq> None then (''#nu_{#tau}'', kPdgNuTau)
             else ([], kPdgNone))
      in g\<lparr>gCurrProbeLbl := label, gCurrProbePdg := pdg,
           gCurrProbeIsNu := IsNeutrino pdg, gCurrProbeIsNuBar := IsAntiNeutrino pdg\<rparr>)"

section \<open>GetCommandLineArgs (gXSecComp.cxx)\<close>

text \<open>
  How the process ends when it does not return: \<^verbatim>\<open>exit(status)\<close>, or the abort of a
  failed \<^verbatim>\<open>assert\<close> (assertions are compiled in, as the source has them).
\<close>

datatype process_end = Exit int | AssertionFailed

text \<open>
  Modelled from the spec: \<^verbatim>\<open>utils::str::Split\<close> (\<^verbatim>\<open>StringUtils\<close>, not among the
  sources), the comma-separated split: the parts of the input between its delimiters.
\<close>

primrec Split :: "string \<Rightarrow> char \<Rightarrow> string list" where
  "Split [] d = [[]]"
| "Split (c # cs) d =
     (if c = d then [] # Split cs d
      else (case Split cs d of [] \<Rightarrow> [[c]] | p # ps \<Rightarrow> (c # p) # ps))"

text \<open>
  \<^verbatim>\<open>CheckRootFilename\<close>; \<^verbatim>\<open>gSystem->AccessPathName\<close> is the parameter
  \<open>accessible\<close> (true when the path can be accessed).
\<close>

definition CheckRootFilename :: "(string \<Rightarrow> bool) \<Rightarrow> string \<Rightarrow> bool" where
  "CheckRootFilename accessible filename =
     (if length filename = 0 then False
      else if \<not> accessible filename then False
      else True)"

text \<open>
  The block that reads a \<^verbatim>\<open>file[,label]\<close> argument, which the source has twice, for
  \<^verbatim>\<open>-f\<close> and for \<^verbatim>\<open>-r\<close>:
  \<^verbatim>\<open>
    if(inp.find(",") != string::npos) {
       vector<string> inpv = utils::str::Split(inp,",");
       assert(inpv.size()==2);
       filename = inpv[0];  label = inpv[1];
    } else {
       filename = inp;  label = default_label;
    }
    bool ok = CheckRootFilename(filename.c_str());
    if(!ok) { PrintSyntax(); exit(1); }
  \<close>
\<close>

definition read_file_arg ::
  "(string \<Rightarrow> bool) \<Rightarrow> string \<Rightarrow> string \<Rightarrow> process_end + (string \<times> string)" where
  "read_file_arg accessible inp default_label =
     (case (if string_find inp '','' \<noteq> None then
              (let inpv = Split inp (CHR '','')
               in if length inpv = 2 then Inr (inpv ! 0, inpv ! 1) else Inl AssertionFailed)
            else Inr (inp, default_label)) of
        Inl t \<Rightarrow> Inl t
      | Inr (filename, label) \<Rightarrow>
          if CheckRootFilename accessible filename then Inr (filename, label) else Inl (Exit 1))"

text \<open>
  \<^verbatim>\<open>CmdLnArgParser\<close> is not among the sources: the parsed command line is the map
  \<open>args\<close> from an option's letter to its argument (\<^verbatim>\<open>OptionExists\<close> is
  \<open>args c \<noteq> None\<close>, \<^verbatim>\<open>ArgAsString\<close> the argument).
\<close>

definition GetCommandLineArgs ::
  "(string \<Rightarrow> bool) \<Rightarrow> (char \<rightharpoonup> string) \<Rightarrow> globals \<Rightarrow> process_end + globals" where
  "GetCommandLineArgs accessible args g =
     (case args (CHR ''f'') of
        None \<Rightarrow> Inl (Exit 1)
      | Some inp \<Rightarrow>
         (case read_file_arg accessible inp ''current'' of
            Inl t \<Rightarrow> Inl t
          | Inr (filename, label) \<Rightarrow>
             (let g1 = g\<lparr>gOptXSecFilename_curr := filename, gLabelCurr := label\<rparr>
              in case (case args (CHR ''r'') of
                         None \<Rightarrow> Inr (g1\<lparr>gOptHaveRef := False\<rparr>)
                       | Some inp_r \<Rightarrow>
                          (case read_file_arg accessible inp_r ''reference'' of
                             Inl t \<Rightarrow> Inl t
                           | Inr (filename_r, label_r) \<Rightarrow>
                               Inr (g1\<lparr>gOptXSecFilename_ref0 := filename_r,
                                       gLabelRef0 := label_r, gOptHaveRef := True\<rparr>))) of
                   Inl t \<Rightarrow> Inl t
                 | Inr g2 \<Rightarrow>
                    (case args (CHR ''o'') of
                       Some out \<Rightarrow> Inr (g2\<lparr>gOptOutputFilename := out\<rparr>)
                     | None \<Rightarrow> Inr (g2\<lparr>gOptOutputFilename := ''xsec.ps''\<rparr>)))))"

section \<open>Draw (gXSecComp.cxx)\<close>

text \<open>
  \<^verbatim>\<open>void Draw(TGraph* gr, const char * opt)\<close>: nothing for a null graph. The pad is the
  current pad of the caller.
\<close>

definition Draw_graph :: "pad \<Rightarrow> TGraph option \<Rightarrow> string \<Rightarrow> canvas_op list" where
  "Draw_graph p gr opt = (case gr of None \<Rightarrow> [] | Some g \<Rightarrow> [GraphDrawn p g opt])"

text \<open>
  \<^verbatim>\<open>void Draw(const char * plot, const char * title)\<close>, the step of one category. The
  calls to \<^verbatim>\<open>utils::style::Format\<close> set styles only and are left out; the frame is
  recorded by its pad.
\<close>

definition Draw ::
  "(TGraph \<Rightarrow> real \<Rightarrow> real) \<Rightarrow> string \<Rightarrow> string option \<Rightarrow> globals \<Rightarrow> fault + globals" where
  "Draw Eval plot title g =
     (let g1 = g\<lparr>gPS := gPS g @ [HeaderDrawn title]\<rparr>
      in case gDirCurr g1 of
           None \<Rightarrow> Inl NullPointer
         | Some dir_curr \<Rightarrow>
            (let gr_curr = dir_curr plot;
                 gr_ref0 = (case gDirRef0 g1 of None \<Rightarrow> None | Some dir_ref0 \<Rightarrow> dir_ref0 plot)
             in if gr_curr = None \<and> gr_ref0 = None then Inr g1
                else if title = None then Inr g1
                else
                  (case TrimGraph gr_ref0 20 of
                     Inl e \<Rightarrow> Inl e
                   | Inr gr_ref0_trim \<Rightarrow>
                      (let xsecs =
                             FrameDrawn PadXSecs
                               # Draw_graph PadXSecs gr_curr ''L''
                               @ Draw_graph PadXSecs gr_ref0_trim ''P''
                               @ [LegendDrawn
                                    ((gr_curr, gLabelCurr g1, ''L'')
                                       # (if gOptHaveRef g1
                                          then [(gr_ref0_trim, gLabelRef0 g1, ''P'')] else []))];
                           ratio =
                             (if gOptHaveRef g1 then
                                (let gr_ratio = snd (DrawRatio Eval gr_curr gr_ref0)
                                 in FrameDrawn PadRatio # Draw_graph PadRatio gr_ratio ''L'')
                              else [])
                       in Inr (g1\<lparr>gPS := gPS g1 @ xsecs @ ratio @ [CanvasUpdate, NewPage]\<rparr>)))))"

text \<open>The pages emitted so far: the calls of \<^verbatim>\<open>gPS->NewPage()\<close>.\<close>

definition pages :: "globals \<Rightarrow> nat" where
  "pages g = length (filter (\<lambda>op. op = NewPage) (gPS g))"

section \<open>MultiGraph (MultiGraph.cxx)\<close>

text \<open>
  The graphs a \<^verbatim>\<open>MultiGraph\<close> holds are objects it is handed by pointer
  (\<^verbatim>\<open>TGraphAsymmErrors *\<close>) and formats in place. The model keeps the objects in a
  store, from addresses to the visual attributes of the graph at the address; a pointer
  is an address or null (\<open>None\<close>).
\<close>

record TAttr =
  MarkerSize :: real
  MarkerColor :: int
  MarkerStyle :: int
  LineColor :: int
  LineWidth :: int
  LineStyle :: int

type_synonym graph_ptr = "nat option"

type_synonym graph_store = "nat \<rightharpoonup> TAttr"

record MultiGraph =
  mgraph :: "graph_ptr list"
  legend_entries :: "string list"

definition MultiGraph0 :: MultiGraph where
  "MultiGraph0 = \<lparr>mgraph = [], legend_entries = []\<rparr>"

definition NGraphs :: "MultiGraph \<Rightarrow> nat" where
  "NGraphs mg = length (mgraph mg)"

definition GetGraph :: "MultiGraph \<Rightarrow> nat \<Rightarrow> graph_ptr" where
  "GetGraph mg igraph = (if igraph < NGraphs mg then mgraph mg ! igraph else None)"

text \<open>
  \<^verbatim>\<open>GetLegendEntry\<close> checks the index against the number of graphs and reads the
  vector of legend entries: a read beyond that vector is a fault.
\<close>

definition GetLegendEntry :: "MultiGraph \<Rightarrow> nat \<Rightarrow> fault + string" where
  "GetLegendEntry mg igraph =
     (if igraph < NGraphs mg then
        (if igraph < length (legend_entries mg) then Inr (legend_entries mg ! igraph)
         else Inl IndexOutOfRange)
      else Inr [])"

definition n_colors :: nat where
  "n_colors = 10"

definition colors :: "int list" where
  "colors = [1, 2, 4, 6, 7, 8, 9, 50, 38, 40]"

definition markers :: "int list" where
  "markers = [3, 4, 5, 8, 21, 22, 23, 24, 25, 26, 27, 28, 29, 30]"

text \<open>
  \<^verbatim>\<open>FormatGraph\<close> reads \<^verbatim>\<open>colors[icolor]\<close> and \<^verbatim>\<open>markers[imarker]\<close> (first for
  the log line), then sets the six attributes of the graph \<^verbatim>\<open>_mgraph[igraph]\<close> points
  to. Reading past an array and following a null or dangling pointer are faults.
\<close>

definition FormatGraph :: "nat \<Rightarrow> MultiGraph \<times> graph_store \<Rightarrow> fault + MultiGraph \<times> graph_store" where
  "FormatGraph igraph s =
     (case s of (mg, store) \<Rightarrow>
        (let imarker = igraph div n_colors;
             icolor = igraph mod n_colors
         in if \<not> (icolor < length colors \<and> imarker < length markers) then Inl IndexOutOfRange
            else if \<not> igraph < length (mgraph mg) then Inl IndexOutOfRange
            else
              (case mgraph mg ! igraph of
                 None \<Rightarrow> Inl NullPointer
               | Some a \<Rightarrow>
                  (case store a of
                     None \<Rightarrow> Inl NullPointer
                   | Some attr \<Rightarrow>
                       Inr (mg, store(a \<mapsto> attr\<lparr>MarkerSize := 1,
                                                 MarkerColor := colors ! icolor,
                                                 MarkerStyle := markers ! imarker,
                                                 LineColor := colors ! icolor,
                                                 LineWidth := 2,
                                                 LineStyle := 1\<rparr>))))))"

definition AddGraph ::
  "string \<Rightarrow> graph_ptr \<Rightarrow> MultiGraph \<times> graph_store \<Rightarrow> fault + MultiGraph \<times> graph_store" where
  "AddGraph legend_entry graph s =
     (case s of (mg, store) \<Rightarrow>
        (let mg1 = mg\<lparr>mgraph := mgraph mg @ [graph]\<rparr>;
             mg2 = mg1\<lparr>legend_entries := legend_entries mg1 @ [legend_entry]\<rparr>
         in FormatGraph (length (mgraph mg2) - 1) (mg2, store)))"

text \<open>A sequence of calls of \<^verbatim>\<open>AddGraph\<close>, in order; a fault ends it.\<close>

fun AddGraphs ::
  "(string \<times> graph_ptr) list \<Rightarrow> MultiGraph \<times> graph_store \<Rightarrow> fault + MultiGraph \<times> graph_store" where
  "AddGraphs [] s = Inr s"
| "AddGraphs ((legend_entry, graph) # es) s =
     (case AddGraph legend_entry graph s of Inl e \<Rightarrow> Inl e | Inr s' \<Rightarrow> AddGraphs es s')"

text \<open>
  The two vectors of a \<^verbatim>\<open>MultiGraph\<close> grow together (only \<^verbatim>\<open>AddGraph\<close> writes
  them): in every state the object can be in they have the same length.
\<close>

definition MultiGraph_ok :: "MultiGraph \<Rightarrow> bool" where
  "MultiGraph_ok mg = (length (legend_entries mg) = length (mgraph mg))"

text \<open>The style \<^verbatim>\<open>FormatGraph\<close> gives at index \<open>i\<close>, read from a graph's attributes.\<close>

definition has_style_of_index :: "TAttr \<Rightarrow> nat \<Rightarrow> bool" where
  "has_style_of_index attr i =
     (MarkerStyle attr = markers ! (i div 10) \<and> MarkerColor attr = colors ! (i mod 10) \<and>
      LineColor attr = colors ! (i mod 10) \<and> MarkerSize attr = 1 \<and> LineWidth attr = 2 \<and>
      LineStyle attr = 1)"

text \<open>
  A store for examples: \<open>n\<close> graphs, at the addresses below \<open>n\<close>, with the attributes of
  a graph nobody has formatted.
\<close>

definition fresh_graphs :: "nat \<Rightarrow> graph_store" where
  "fresh_graphs n a =
     (if a < n then Some \<lparr>MarkerSize = 1, MarkerColor = 1, MarkerStyle = 1, LineColor = 1,
                          LineWidth = 1, LineStyle = 1\<rparr>
      else None)"

section \<open>The ratio curve: claims C1 and C7\<close>

text \<open>
  Claim C1, as amended. For every pair of present input curves, \<^verbatim>\<open>DrawRatio\<close> returns
  a curve sampled at the x-values of the numerator curve, in their order, whose y at such
  an x is: \<open>num(x) / denom(x)\<close> when both evaluations are non-zero; \<open>-1\<close> when the
  numerator is non-zero and the denominator evaluates to zero; \<open>+1\<close> when the numerator
  evaluates to zero, whatever the denominator does (the both-zero case included).
\<close>

theorem DrawRatio_values:
  "\<exists>ratio. snd (DrawRatio Eval (Some gr0) (Some gr1)) = Some ratio \<and>
     GetN ratio = GetN gr0 \<and> GetX ratio = GetX gr0 \<and>
     (\<forall>i<GetN gr0.
        (Eval gr0 (GetX gr0 ! i) \<noteq> 0 \<and> Eval gr1 (GetX gr0 ! i) \<noteq> 0 \<longrightarrow>
           GetY ratio ! i = Eval gr0 (GetX gr0 ! i) / Eval gr1 (GetX gr0 ! i)) \<and>
        (Eval gr0 (GetX gr0 ! i) \<noteq> 0 \<and> Eval gr1 (GetX gr0 ! i) = 0 \<longrightarrow>
           GetY ratio ! i = - 1) \<and>
        (Eval gr0 (GetX gr0 ! i) = 0 \<longrightarrow> GetY ratio ! i = 1))"
proof -
  define ratio where
    "ratio = map (\<lambda>i. (GetX gr0 ! i, ratio_at Eval gr0 gr1 (GetX gr0 ! i))) [0..<GetN gr0]"
  have r: "snd (DrawRatio Eval (Some gr0) (Some gr1)) = Some ratio"
    by (simp add: DrawRatio_def ratio_def)
  have n: "GetN ratio = GetN gr0"
    by (simp add: ratio_def GetN_def)
  have x: "GetX ratio = GetX gr0"
    by (simp add: ratio_def GetX_def GetN_def comp_def map_nth [of "map fst gr0", simplified])
  have y: "GetY ratio ! i = ratio_at Eval gr0 gr1 (GetX gr0 ! i)" if "i < GetN gr0" for i
    using that by (simp add: ratio_def GetY_def)
  from r n x y show ?thesis
    by (simp add: ratio_at_def)
qed

text \<open>
  One abscissa for each of the four cases: numerator zero, denominator zero, both
  non-zero, both zero.
\<close>

theorem DrawRatio_values_witness:
  "snd (DrawRatio sample_eval (Some [(1, 0), (2, 3), (3, 4), (4, 0)]) (Some [(1, 2), (2, 0), (3, 8), (4, 0)]))
     = Some [(1, 1), (2, - 1), (3, 1 / 2), (4, 1)]"
proof -
  have "snd (DrawRatio sample_eval (Some [(1, 0), (2, 3), (3, 4), (4, 0)])
      (Some [(1, 2), (2, 0), (3, 8), (4, 0)])) = Some [(1, 1), (2, - 1), (3, 1 / 2), (4, 1)]"
    by (simp add: DrawRatio_def GetX_def GetN_def ratio_at_def sample_eval_def upt_rec)
  with DrawRatio_values [of sample_eval "[(1, 0), (2, 3), (3, 4), (4, 0)]"
      "[(1, 2), (2, 0), (3, 8), (4, 0)]"]
  show ?thesis by simp
qed

text \<open>
  Claim C1 as stated gives \<open>-1\<close> to a vanishing numerator and \<open>+1\<close> to a vanishing
  denominator. The code does the opposite: the inner test is
  \<^verbatim>\<open>if(gr0->Eval(x[i]) != 0.) y[i] = -1; else y[i] = 1;\<close>.
\<close>

theorem DrawRatio_sentinels_counterexample:
  "snd (DrawRatio sample_eval (Some [(1, 0)]) (Some [(1, 2)])) = Some [(1, 1)] \<and>
   snd (DrawRatio sample_eval (Some [(1, 3)]) (Some [(1, 0)])) = Some [(1, - 1)]"
  by (simp add: DrawRatio_def GetX_def GetN_def ratio_at_def sample_eval_def)

text \<open>
  Claim C7. When either input of \<^verbatim>\<open>DrawRatio\<close> is null the result is null, and nothing
  else happens: not even the debug line is logged.
\<close>

theorem DrawRatio_absent:
  "DrawRatio Eval None gr1 = ([], None) \<and> DrawRatio Eval gr0 None = ([], None)"
  by (simp add: DrawRatio_def split: option.split)

section \<open>Trimming: claims C2 and C3\<close>



































section \<open>The probe of a directory: claim C8\<close>

lemma string_find_sublist: "string_find s pat = None \<longleftrightarrow> \<not> sublist pat s"
  by (induction s) (auto simp add: sublist_Cons_right)

lemma string_find_None: "sublist pat s \<longleftrightarrow> string_find s pat \<noteq> None"
  by (simp add: string_find_sublist)

lemma sublist_longer:
  "sublist (p @ q) s \<Longrightarrow> sublist p s"
  by (meson sublist_appendI sublist_order.order_trans prefix_imp_sublist prefixI)

text \<open>
  Claim C8, as amended. Within each pair the longer alternative is tested first, so a
  directory name containing \<open>nu_e_bar\<close> resolves to the anti-electron-neutrino, one
  containing \<open>nu_mu_bar\<close> never resolves to the muon neutrino, and one containing
  \<open>nu_tau_bar\<close> never to the tau neutrino. The pairs themselves are tested in the order
  e, mu, tau: a name containing \<open>nu_mu_bar\<close> resolves to the anti-muon-neutrino when it
  does not contain \<open>nu_e\<close>, and a name containing \<open>nu_tau_bar\<close> to the
  anti-tau-neutrino when it contains neither \<open>nu_e\<close> nor \<open>nu_mu\<close>.
\<close>

theorem DirNameToProbe_bar_first:
  "(sublist ''nu_e_bar'' (gDirName g) \<longrightarrow> gCurrProbePdg (DirNameToProbe g) = kPdgAntiNuE) \<and>
   (sublist ''nu_mu_bar'' (gDirName g) \<longrightarrow>
      gCurrProbePdg (DirNameToProbe g) \<noteq> kPdgNuMu \<and>
      (\<not> sublist ''nu_e'' (gDirName g) \<longrightarrow> gCurrProbePdg (DirNameToProbe g) = kPdgAntiNuMu)) \<and>
   (sublist ''nu_tau_bar'' (gDirName g) \<longrightarrow>
      gCurrProbePdg (DirNameToProbe g) \<noteq> kPdgNuTau \<and>
      (\<not> sublist ''nu_e'' (gDirName g) \<and> \<not> sublist ''nu_mu'' (gDirName g) \<longrightarrow>
         gCurrProbePdg (DirNameToProbe g) = kPdgAntiNuTau))"
proof -
  have e: "sublist ''nu_e'' s" if "sublist ''nu_e_bar'' s" for s
    using sublist_longer [of "''nu_e''" "''_bar''" s] that by simp
  have mu: "sublist ''nu_mu'' s" if "sublist ''nu_mu_bar'' s" for s
    using sublist_longer [of "''nu_mu''" "''_bar''" s] that by simp
  show ?thesis
    using e [of "gDirName g"] mu [of "gDirName g"]
    by (simp add: DirNameToProbe_def Let_def string_find_sublist)
qed

text \<open>Three directory names as \<^verbatim>\<open>gspl2root\<close> writes them.\<close>

theorem DirNameToProbe_bar_first_witness:
  "gCurrProbePdg (DirNameToProbe (globals0\<lparr>gDirName := ''nu_mu_bar_Fe56''\<rparr>)) = kPdgAntiNuMu \<and>
   gCurrProbePdg (DirNameToProbe (globals0\<lparr>gDirName := ''nu_e_bar_C12''\<rparr>)) = kPdgAntiNuE \<and>
   gCurrProbePdg (DirNameToProbe (globals0\<lparr>gDirName := ''nu_tau_bar_H1''\<rparr>)) = kPdgAntiNuTau"
proof -
  have "sublist ''nu_mu_bar'' ''nu_mu_bar_Fe56''" and "\<not> sublist ''nu_e'' ''nu_mu_bar_Fe56''"
    and "sublist ''nu_e_bar'' ''nu_e_bar_C12''"
    and "sublist ''nu_tau_bar'' ''nu_tau_bar_H1''" and "\<not> sublist ''nu_e'' ''nu_tau_bar_H1''"
    and "\<not> sublist ''nu_mu'' ''nu_tau_bar_H1''"
    by (simp_all add: string_find_None)
  with DirNameToProbe_bar_first [of "globals0\<lparr>gDirName := ''nu_mu_bar_Fe56''\<rparr>"]
    DirNameToProbe_bar_first [of "globals0\<lparr>gDirName := ''nu_e_bar_C12''\<rparr>"]
    DirNameToProbe_bar_first [of "globals0\<lparr>gDirName := ''nu_tau_bar_H1''\<rparr>"]
  show ?thesis by simp
qed

text \<open>
  Claim C8 as stated fails at a name that contains \<open>nu_mu_bar\<close> and also \<open>nu_e\<close>:
  the tests for the electron flavour come first and the name resolves to the electron
  neutrino.
\<close>

theorem DirNameToProbe_order_counterexample:
  "sublist ''nu_mu_bar'' ''nu_e_vs_nu_mu_bar'' \<and>
   gCurrProbePdg (DirNameToProbe (globals0\<lparr>gDirName := ''nu_e_vs_nu_mu_bar''\<rparr>)) = kPdgNuE"
  by (simp add: string_find_None DirNameToProbe_def)

section \<open>The command line: claim C6\<close>

lemma string_find_char: "string_find s [d] = None \<longleftrightarrow> d \<notin> set s"
  by (induction s) auto

lemma Split_not_Nil: "Split s d \<noteq> []"
  by (induction s) (auto split: list.splits)

lemma Split_no_delimiter: "d \<notin> set s \<Longrightarrow> Split s d = [s]"
  by (induction s) auto

lemma Split_at_delimiter: "d \<notin> set a \<Longrightarrow> Split (a @ d # b) d = a # Split b d"
  by (induction a) auto

lemma length_Split: "length (Split s d) = Suc (count_list s d)"
  by (induction s) (auto simp add: Split_not_Nil split: list.splits)

lemma read_file_arg_plain:
  "CHR '','' \<notin> set inp \<Longrightarrow>
     read_file_arg accessible inp dflt =
       (if inp \<noteq> [] \<and> accessible inp then Inr (inp, dflt) else Inl (Exit 1))"
  by (simp add: read_file_arg_def string_find_char CheckRootFilename_def)

lemma read_file_arg_pair:
  "CHR '','' \<notin> set file \<Longrightarrow> CHR '','' \<notin> set label \<Longrightarrow>
     read_file_arg accessible (file @ CHR '','' # label) dflt =
       (if file \<noteq> [] \<and> accessible file then Inr (file, label) else Inl (Exit 1))"
  by (simp add: read_file_arg_def string_find_char CheckRootFilename_def Split_at_delimiter
      Split_no_delimiter)

lemma read_file_arg_commas:
  "2 \<le> count_list inp (CHR '','') \<Longrightarrow> read_file_arg accessible inp dflt = Inl AssertionFailed"
proof -
  assume c: "2 \<le> count_list inp (CHR '','')"
  then have "CHR '','' \<in> set inp"
    using count_list_0_iff [of inp "CHR '',''"] by (cases "CHR '','' \<in> set inp") auto
  with c show ?thesis
    by (simp add: read_file_arg_def string_find_char length_Split)
qed

text \<open>
  Claim C6, as amended. With no \<^verbatim>\<open>-f\<close> option the process ends by \<^verbatim>\<open>exit(1)\<close>.
  With \<^verbatim>\<open>-f inp\<close>, \<open>inp\<close> without a comma: the process ends by \<^verbatim>\<open>exit(1)\<close> when
  \<open>inp\<close> is empty or cannot be accessed; whenever the function returns, the source is
  \<open>inp\<close> and the label \<open>current\<close>; and it returns when \<open>inp\<close> is accessible and there
  is no \<^verbatim>\<open>-r\<close>. With \<^verbatim>\<open>-f file,label\<close> (one comma) the same holds with source
  \<open>file\<close> and label \<open>label\<close>. With two commas or more the assertion
  \<^verbatim>\<open>assert(inpv.size()==2)\<close> fails: the process is aborted, it does not end by
  \<^verbatim>\<open>exit(1)\<close>.
\<close>

theorem GetCommandLineArgs_f:
  "(args (CHR ''f'') = None \<longrightarrow> GetCommandLineArgs accessible args g = Inl (Exit 1)) \<and>
   (args (CHR ''f'') = Some inp \<and> CHR '','' \<notin> set inp \<longrightarrow>
      (inp = [] \<or> \<not> accessible inp \<longrightarrow> GetCommandLineArgs accessible args g = Inl (Exit 1)) \<and>
      (\<forall>g'. GetCommandLineArgs accessible args g = Inr g' \<longrightarrow>
         gOptXSecFilename_curr g' = inp \<and> gLabelCurr g' = ''current'') \<and>
      (inp \<noteq> [] \<and> accessible inp \<and> args (CHR ''r'') = None \<longrightarrow>
         (\<exists>g'. GetCommandLineArgs accessible args g = Inr g'))) \<and>
   (args (CHR ''f'') = Some (file @ CHR '','' # label) \<and>
      CHR '','' \<notin> set file \<and> CHR '','' \<notin> set label \<longrightarrow>
      (file = [] \<or> \<not> accessible file \<longrightarrow> GetCommandLineArgs accessible args g = Inl (Exit 1)) \<and>
      (\<forall>g'. GetCommandLineArgs accessible args g = Inr g' \<longrightarrow>
         gOptXSecFilename_curr g' = file \<and> gLabelCurr g' = label) \<and>
      (file \<noteq> [] \<and> accessible file \<and> args (CHR ''r'') = None \<longrightarrow>
         (\<exists>g'. GetCommandLineArgs accessible args g = Inr g'))) \<and>
   (args (CHR ''f'') = Some inp \<and> 2 \<le> count_list inp (CHR '','') \<longrightarrow>
      GetCommandLineArgs accessible args g = Inl AssertionFailed)"
proof (intro conjI impI)
  assume "args (CHR ''f'') = None"
  then show "GetCommandLineArgs accessible args g = Inl (Exit 1)"
    by (simp add: GetCommandLineArgs_def)
next
  assume a: "args (CHR ''f'') = Some inp \<and> CHR '','' \<notin> set inp"
  then have r: "read_file_arg accessible inp ''current'' =
      (if inp \<noteq> [] \<and> accessible inp then Inr (inp, ''current'') else Inl (Exit 1))"
    by (simp add: read_file_arg_plain)
  {
    assume "inp = [] \<or> \<not> accessible inp"
    with a r show "GetCommandLineArgs accessible args g = Inl (Exit 1)"
      by (auto simp add: GetCommandLineArgs_def)
  next
    from a r show "\<forall>g'. GetCommandLineArgs accessible args g = Inr g' \<longrightarrow>
        gOptXSecFilename_curr g' = inp \<and> gLabelCurr g' = ''current''"
      by (auto simp add: GetCommandLineArgs_def Let_def
          split: option.splits sum.splits if_splits prod.splits)
  next
    assume "inp \<noteq> [] \<and> accessible inp \<and> args (CHR ''r'') = None"
    with a r show "\<exists>g'. GetCommandLineArgs accessible args g = Inr g'"
      by (simp add: GetCommandLineArgs_def Let_def split: option.splits)
  }
next
  assume a: "args (CHR ''f'') = Some (file @ CHR '','' # label) \<and>
      CHR '','' \<notin> set file \<and> CHR '','' \<notin> set label"
  then have r: "read_file_arg accessible (file @ CHR '','' # label) ''current'' =
      (if file \<noteq> [] \<and> accessible file then Inr (file, label) else Inl (Exit 1))"
    by (simp add: read_file_arg_pair)
  {
    assume "file = [] \<or> \<not> accessible file"
    with a r show "GetCommandLineArgs accessible args g = Inl (Exit 1)"
      by (auto simp add: GetCommandLineArgs_def)
  next
    from a r show "\<forall>g'. GetCommandLineArgs accessible args g = Inr g' \<longrightarrow>
        gOptXSecFilename_curr g' = file \<and> gLabelCurr g' = label"
      by (auto simp add: GetCommandLineArgs_def Let_def
          split: option.splits sum.splits if_splits prod.splits)
  next
    assume "file \<noteq> [] \<and> accessible file \<and> args (CHR ''r'') = None"
    with a r show "\<exists>g'. GetCommandLineArgs accessible args g = Inr g'"
      by (simp add: GetCommandLineArgs_def Let_def split: option.splits)
  }
next
  assume "args (CHR ''f'') = Some inp \<and> 2 \<le> count_list inp (CHR '','')"
  then show "GetCommandLineArgs accessible args g = Inl AssertionFailed"
    by (simp add: GetCommandLineArgs_def read_file_arg_commas)
qed

text \<open>
  The command lines of the claim, where only \<open>a.dat\<close> can be accessed (for the last
  one, every path).
\<close>

theorem GetCommandLineArgs_f_witness:
  "(case GetCommandLineArgs (\<lambda>f. f = ''a.dat'') [CHR ''f'' \<mapsto> ''a.dat,Label''] globals0 of
      Inl t \<Rightarrow> None | Inr g' \<Rightarrow> Some (gOptXSecFilename_curr g', gLabelCurr g'))
     = Some (''a.dat'', ''Label'') \<and>
   (case GetCommandLineArgs (\<lambda>f. f = ''a.dat'') [CHR ''f'' \<mapsto> ''a.dat''] globals0 of
      Inl t \<Rightarrow> None | Inr g' \<Rightarrow> Some (gOptXSecFilename_curr g', gLabelCurr g'))
     = Some (''a.dat'', ''current'') \<and>
   GetCommandLineArgs (\<lambda>f. f = ''a.dat'') [CHR ''f'' \<mapsto> ''b.dat''] globals0 = Inl (Exit 1) \<and>
   GetCommandLineArgs (\<lambda>f. f = ''a.dat'') Map.empty globals0 = Inl (Exit 1) \<and>
   GetCommandLineArgs (\<lambda>f. True) [CHR ''f'' \<mapsto> ''a,b,c''] globals0 = Inl AssertionFailed"
proof (intro conjI)
  show "(case GetCommandLineArgs (\<lambda>f. f = ''a.dat'') [CHR ''f'' \<mapsto> ''a.dat,Label''] globals0 of
      Inl t \<Rightarrow> None | Inr g' \<Rightarrow> Some (gOptXSecFilename_curr g', gLabelCurr g'))
     = Some (''a.dat'', ''Label'')"
    using GetCommandLineArgs_f [of "[CHR ''f'' \<mapsto> ''a.dat,Label'']" "\<lambda>f. f = ''a.dat''" globals0
        "''a.dat,Label''" "''a.dat''" "''Label''"]
    by (auto split: sum.splits)
  show "(case GetCommandLineArgs (\<lambda>f. f = ''a.dat'') [CHR ''f'' \<mapsto> ''a.dat''] globals0 of
      Inl t \<Rightarrow> None | Inr g' \<Rightarrow> Some (gOptXSecFilename_curr g', gLabelCurr g'))
     = Some (''a.dat'', ''current'')"
    using GetCommandLineArgs_f [of "[CHR ''f'' \<mapsto> ''a.dat'']" "\<lambda>f. f = ''a.dat''" globals0
        "''a.dat''" "[]" "[]"]
    by (auto split: sum.splits)
  show "GetCommandLineArgs (\<lambda>f. f = ''a.dat'') [CHR ''f'' \<mapsto> ''b.dat''] globals0 = Inl (Exit 1)"
    using GetCommandLineArgs_f [of "[CHR ''f'' \<mapsto> ''b.dat'']" "\<lambda>f. f = ''a.dat''" globals0
        "''b.dat''" "[]" "[]"]
    by simp
  show "GetCommandLineArgs (\<lambda>f. f = ''a.dat'') Map.empty globals0 = Inl (Exit 1)"
    using GetCommandLineArgs_f [of Map.empty "\<lambda>f. f = ''a.dat''" globals0 "[]" "[]" "[]"]
    by simp
  show "GetCommandLineArgs (\<lambda>f. True) [CHR ''f'' \<mapsto> ''a,b,c''] globals0 = Inl AssertionFailed"
    using GetCommandLineArgs_f [of "[CHR ''f'' \<mapsto> ''a,b,c'']" "\<lambda>f. True" globals0
        "''a,b,c''" "[]" "[]"]
    by simp
qed

text \<open>
  Claim C6 as stated fails at \<^verbatim>\<open>-f a,b,c\<close>: the process does not end by
  \<^verbatim>\<open>exit(1)\<close> but by the failed assertion.
\<close>

theorem GetCommandLineArgs_commas_counterexample:
  "count_list ''a,b,c'' (CHR '','') = 2 \<and>
   GetCommandLineArgs (\<lambda>f. True) [CHR ''f'' \<mapsto> ''a,b,c''] globals0 = Inl AssertionFailed \<and>
   GetCommandLineArgs (\<lambda>f. True) [CHR ''f'' \<mapsto> ''a,b,c''] globals0 \<noteq> Inl (Exit 1)"
  by (simp add: GetCommandLineArgs_def read_file_arg_def)

section \<open>The page of a category: claim C5\<close>

lemma pages_append: "pages (g\<lparr>gPS := gPS g @ ops\<rparr>) = pages g + length (filter (\<lambda>op. op = NewPage) ops)"
  by (simp add: pages_def)

text \<open>
  Claim C5, as amended. For every category name whose curve is absent from the current
  directory and from the reference directory (or there is no reference directory),
  \<^verbatim>\<open>Draw\<close> returns, without fault, right after drawing the header text: it draws no
  frame and no curve and emits no page, and the caller goes on with the next category.
\<close>

theorem Draw_skips_absent:
  assumes "gDirCurr g = Some dir_curr" and "dir_curr plot = None"
    and "gDirRef0 g = None \<or> (\<exists>dir_ref0. gDirRef0 g = Some dir_ref0 \<and> dir_ref0 plot = None)"
  shows "Draw Eval plot title g = Inr (g\<lparr>gPS := gPS g @ [HeaderDrawn title]\<rparr>) \<and>
         pages (g\<lparr>gPS := gPS g @ [HeaderDrawn title]\<rparr>) = pages g"
proof -
  from assms have "Draw Eval plot title g = Inr (g\<lparr>gPS := gPS g @ [HeaderDrawn title]\<rparr>)"
    by (auto simp add: Draw_def Let_def)
  then show ?thesis by (simp add: pages_append)
qed

text \<open>
  The category \<open>tot_cc\<close> in directories that hold \<open>tot_nc\<close> only: with a reference
  directory, and without one.
\<close>

theorem Draw_skips_absent_witness:
  "Draw sample_eval ''tot_cc'' (Some ''TOT CC'')
     (globals0\<lparr>gDirCurr := Some [''tot_nc'' \<mapsto> [(1, 2)]],
               gDirRef0 := Some [''tot_nc'' \<mapsto> [(1, 3)]], gOptHaveRef := True\<rparr>)
     = Inr (globals0\<lparr>gDirCurr := Some [''tot_nc'' \<mapsto> [(1, 2)]],
               gDirRef0 := Some [''tot_nc'' \<mapsto> [(1, 3)]], gOptHaveRef := True,
               gPS := [HeaderDrawn (Some ''TOT CC'')]\<rparr>) \<and>
   Draw sample_eval ''tot_cc'' (Some ''TOT CC'')
     (globals0\<lparr>gDirCurr := Some [''tot_nc'' \<mapsto> [(1, 2)]]\<rparr>)
     = Inr (globals0\<lparr>gDirCurr := Some [''tot_nc'' \<mapsto> [(1, 2)]],
               gPS := [HeaderDrawn (Some ''TOT CC'')]\<rparr>)"
  using Draw_skips_absent [of "globals0\<lparr>gDirCurr := Some [''tot_nc'' \<mapsto> [(1, 2)]],
               gDirRef0 := Some [''tot_nc'' \<mapsto> [(1, 3)]], gOptHaveRef := True\<rparr>"
      "[''tot_nc'' \<mapsto> [(1, 2)]]" "''tot_cc''" sample_eval "Some ''TOT CC''"]
    Draw_skips_absent [of "globals0\<lparr>gDirCurr := Some [''tot_nc'' \<mapsto> [(1, 2)]]\<rparr>"
      "[''tot_nc'' \<mapsto> [(1, 2)]]" "''tot_cc''" sample_eval "Some ''TOT CC''"]
  by (simp add: globals0_def)

text \<open>
  Claim C5 as stated fails at a category absent from the current directory and present
  in the reference directory: the test is \<^verbatim>\<open>if(gr_curr == 0 && gr_ref0 ==0) return;\<close>,
  and here the page is drawn from the reference curve alone and emitted.
\<close>

theorem Draw_reference_only_counterexample:
  "(case Draw sample_eval ''tot_cc'' (Some ''TOT CC'')
           (globals0\<lparr>gDirCurr := Some Map.empty,
                     gDirRef0 := Some [''tot_cc'' \<mapsto> [(1, 3)]], gOptHaveRef := True\<rparr>) of
      Inl e \<Rightarrow> None
    | Inr g' \<Rightarrow> Some (pages g', gPS g'))
   = Some (1, [HeaderDrawn (Some ''TOT CC''), FrameDrawn PadXSecs,
               GraphDrawn PadXSecs [(1, 3)] ''P'',
               LegendDrawn [(None, [], ''L''), (Some [(1, 3)], [], ''P'')],
               FrameDrawn PadRatio, CanvasUpdate, NewPage])"
  by (simp add: Draw_def Let_def globals0_def TrimGraph_def TrimGraph_remv_def GetX_def GetN_def
      GetY_def trim_loop.simps scan_decade.simps thin_decade_def kept_points_def Draw_graph_def
      DrawRatio_def pages_def)

section \<open>The graph aggregator: claims C4, C9 and C10\<close>

lemma AddGraph_result:
  assumes "NGraphs mg < 140" and "store a = Some attr"
  shows "AddGraph l (Some a) (mg, store) =
     Inr (mg\<lparr>mgraph := mgraph mg @ [Some a], legend_entries := legend_entries mg @ [l]\<rparr>,
          store(a \<mapsto> attr\<lparr>MarkerSize := 1,
                            MarkerColor := colors ! (NGraphs mg mod 10),
                            MarkerStyle := markers ! (NGraphs mg div 10),
                            LineColor := colors ! (NGraphs mg mod 10),
                            LineWidth := 2,
                            LineStyle := 1\<rparr>))"
proof -
  from assms(1) have "NGraphs mg div 10 < 14" by simp
  with assms show ?thesis
    by (simp add: AddGraph_def FormatGraph_def Let_def NGraphs_def n_colors_def colors_def
        markers_def)
qed

lemma AddGraph_Inr:
  assumes "AddGraph l p (mg, store) = Inr (mg', store')"
  shows "\<exists>a attr. p = Some a \<and> store a = Some attr \<and> NGraphs mg < 140 \<and>
     mg' = mg\<lparr>mgraph := mgraph mg @ [p], legend_entries := legend_entries mg @ [l]\<rparr> \<and>
     store' = store(a \<mapsto> attr\<lparr>MarkerSize := 1,
                            MarkerColor := colors ! (NGraphs mg mod 10),
                            MarkerStyle := markers ! (NGraphs mg div 10),
                            LineColor := colors ! (NGraphs mg mod 10),
                            LineWidth := 2,
                            LineStyle := 1\<rparr>)"
proof -
  from assms have m: "NGraphs mg div 10 < 14"
    by (simp add: AddGraph_def FormatGraph_def Let_def NGraphs_def n_colors_def colors_def
        markers_def split: if_splits)
  then have n: "NGraphs mg < 140" by simp
  from assms m obtain a attr where "p = Some a" and "store a = Some attr"
    by (auto simp add: AddGraph_def FormatGraph_def Let_def NGraphs_def n_colors_def colors_def
        markers_def split: if_splits option.splits)
  with assms n AddGraph_result [of mg store a attr l, OF n] show ?thesis
    by auto
qed

lemma AddGraphs_append:
  "AddGraphs (xs @ ys) s = (case AddGraphs xs s of Inl e \<Rightarrow> Inl e | Inr s' \<Rightarrow> AddGraphs ys s')"
  by (induction xs s rule: AddGraphs.induct) (auto split: sum.splits)

lemma AddGraphs_Inr:
  "AddGraphs es (mg, store) = Inr (mg', store') \<Longrightarrow>
     mgraph mg' = mgraph mg @ map snd es \<and>
     legend_entries mg' = legend_entries mg @ map fst es \<and>
     dom store' = dom store \<and>
     (\<forall>a. Some a \<notin> set (map snd es) \<longrightarrow> store' a = store a)"
proof (induction es arbitrary: mg store)
  case Nil
  then show ?case by simp
next
  case (Cons e es)
  obtain l p where e: "e = (l, p)" by (cases e)
  with Cons.prems obtain mg1 store1 where
    one: "AddGraph l p (mg, store) = Inr (mg1, store1)"
    and rest: "AddGraphs es (mg1, store1) = Inr (mg', store')"
    by (auto split: sum.splits)
  from AddGraph_Inr [OF one] obtain a attr attr' where
    p: "p = Some a" and live: "store a = Some attr"
    and mg1: "mg1 = mg\<lparr>mgraph := mgraph mg @ [p], legend_entries := legend_entries mg @ [l]\<rparr>"
    and store1: "store1 = store(a \<mapsto> attr')"
    by blast
  from live store1 have dom1: "dom store1 = dom store"
    and frame1: "\<forall>b. b \<noteq> a \<longrightarrow> store1 b = store b"
    by auto
  from Cons.IH [OF rest] mg1 dom1 frame1 p e show ?case
    by auto
qed

lemma AddGraphs_returns:
  "NGraphs mg + length es \<le> 140 \<Longrightarrow>
   \<forall>e\<in>set es. \<exists>a. snd e = Some a \<and> a \<in> dom store \<Longrightarrow>
     \<exists>mg' store'. AddGraphs es (mg, store) = Inr (mg', store')"
proof (induction es arbitrary: mg store)
  case Nil
  then show ?case by simp
next
  case (Cons e es)
  obtain l p where e: "e = (l, p)" by (cases e)
  with Cons.prems(2) obtain a attr where p: "p = Some a" and live: "store a = Some attr"
    by auto
  from Cons.prems(1) have n: "NGraphs mg < 140" by simp
  note one = AddGraph_result [of mg store a attr l, OF n live]
  define mg1 where
    "mg1 = mg\<lparr>mgraph := mgraph mg @ [Some a], legend_entries := legend_entries mg @ [l]\<rparr>"
  define store1 where "store1 = store(a \<mapsto> attr\<lparr>MarkerSize := 1,
                            MarkerColor := colors ! (NGraphs mg mod 10),
                            MarkerStyle := markers ! (NGraphs mg div 10),
                            LineColor := colors ! (NGraphs mg mod 10),
                            LineWidth := 2,
                            LineStyle := 1\<rparr>)"
  have "NGraphs mg1 + length es \<le> 140"
    using Cons.prems(1) by (simp add: mg1_def NGraphs_def)
  moreover have "\<forall>e\<in>set es. \<exists>a. snd e = Some a \<and> a \<in> dom store1"
    using Cons.prems(2) by (auto simp add: store1_def)
  ultimately obtain mg' store' where "AddGraphs es (mg1, store1) = Inr (mg', store')"
    using Cons.IH by blast
  with one e p show ?case
    by (simp add: mg1_def store1_def)
qed

lemma AddGraphs_prefix_style:
  assumes len: "length es \<le> 140"
    and live: "\<forall>e\<in>set es. \<exists>a. snd e = Some a \<and> a \<in> dom store"
    and i: "i < length es"
  shows "\<exists>mg_i store_i a attr.
           AddGraphs (take (Suc i) es) (MultiGraph0, store) = Inr (mg_i, store_i) \<and>
           snd (es ! i) = Some a \<and> GetGraph mg_i i = Some a \<and> store_i a = Some attr \<and>
           has_style_of_index attr i"
proof -
  obtain l p where e: "es ! i = (l, p)" by (cases "es ! i")
  from i have split: "take (Suc i) es = take i es @ [(l, p)]"
    by (simp add: take_Suc_conv_app_nth e)
  have "NGraphs MultiGraph0 + length (take i es) \<le> 140"
    using len i by (simp add: NGraphs_def MultiGraph0_def)
  moreover have "\<forall>e\<in>set (take i es). \<exists>a. snd e = Some a \<and> a \<in> dom store"
    using live by (meson in_set_takeD)
  ultimately obtain mg_p store_p where
    pre: "AddGraphs (take i es) (MultiGraph0, store) = Inr (mg_p, store_p)"
    using AddGraphs_returns by blast
  from AddGraphs_Inr [OF pre] i have n: "NGraphs mg_p = i" and d: "dom store_p = dom store"
    by (simp_all add: NGraphs_def MultiGraph0_def)
  from live i e obtain a where p: "p = Some a" and "a \<in> dom store"
    by (metis nth_mem snd_conv)
  with d obtain attr0 where a: "store_p a = Some attr0" by auto
  from n i len have "NGraphs mg_p < 140" by simp
  note one = AddGraph_result [of mg_p store_p a attr0 l, OF this a]
  define mg_i where
    "mg_i = mg_p\<lparr>mgraph := mgraph mg_p @ [Some a], legend_entries := legend_entries mg_p @ [l]\<rparr>"
  define attr where "attr = attr0\<lparr>MarkerSize := 1,
                            MarkerColor := colors ! (i mod 10),
                            MarkerStyle := markers ! (i div 10),
                            LineColor := colors ! (i mod 10),
                            LineWidth := 2,
                            LineStyle := 1\<rparr>"
  have "AddGraphs (take (Suc i) es) (MultiGraph0, store) = Inr (mg_i, store_p(a \<mapsto> attr))"
    using pre one n p by (simp add: split AddGraphs_append mg_i_def attr_def)
  moreover have "GetGraph mg_i i = Some a"
    using n by (auto simp add: GetGraph_def NGraphs_def mg_i_def nth_append)
  moreover have "has_style_of_index attr i"
    by (simp add: has_style_of_index_def attr_def)
  ultimately show ?thesis using e p by auto
qed

lemma distinct_nth_not_later:
  "distinct xs \<Longrightarrow> i < length xs \<Longrightarrow> xs ! i \<notin> set (drop (Suc i) xs)"
  using id_take_nth_drop [of i xs] distinct_append [of "take i xs" "xs ! i # drop (Suc i) xs"]
  by (metis distinct.simps(2))

text \<open>
  Claim C4. For every sequence of at most 140 calls of \<^verbatim>\<open>AddGraph\<close> on a fresh
  \<^verbatim>\<open>MultiGraph\<close>, each with a live graph: all the calls return; right after the call
  that adds the entry of index \<open>i\<close>, the graph of that entry has marker
  \<open>markers[i / 10]\<close>, marker and line colour \<open>colors[i mod 10]\<close>, marker size 1, line
  width 2 and line style 1, whatever the labels and the graphs are; and when no graph
  is added twice, all the entries carry these styles in the final state. (From index 140
  on \<^verbatim>\<open>markers[imarker]\<close> is read out of range.)
\<close>

theorem AddGraphs_styles:
  assumes "length es \<le> 140"
    and "\<forall>e\<in>set es. \<exists>a. snd e = Some a \<and> a \<in> dom store"
  shows "\<exists>mg store'.
           AddGraphs es (MultiGraph0, store) = Inr (mg, store') \<and> NGraphs mg = length es \<and>
           (\<forall>i<length es. \<exists>mg_i store_i a attr.
              AddGraphs (take (Suc i) es) (MultiGraph0, store) = Inr (mg_i, store_i) \<and>
              snd (es ! i) = Some a \<and> GetGraph mg_i i = Some a \<and> store_i a = Some attr \<and>
              has_style_of_index attr i) \<and>
           (distinct (map snd es) \<longrightarrow>
              (\<forall>i<length es. \<exists>a attr.
                 GetGraph mg i = Some a \<and> store' a = Some attr \<and> has_style_of_index attr i))"
proof -
  have "NGraphs MultiGraph0 + length es \<le> 140"
    using assms(1) by (simp add: NGraphs_def MultiGraph0_def)
  with assms(2) obtain mg store' where
    fin: "AddGraphs es (MultiGraph0, store) = Inr (mg, store')"
    using AddGraphs_returns by blast
  from AddGraphs_Inr [OF fin] have graphs: "mgraph mg = map snd es"
    by (simp add: MultiGraph0_def)
  then have n: "NGraphs mg = length es" by (simp add: NGraphs_def)
  have each: "\<forall>i<length es. \<exists>mg_i store_i a attr.
      AddGraphs (take (Suc i) es) (MultiGraph0, store) = Inr (mg_i, store_i) \<and>
      snd (es ! i) = Some a \<and> GetGraph mg_i i = Some a \<and> store_i a = Some attr \<and>
      has_style_of_index attr i"
    using AddGraphs_prefix_style [OF assms] by blast
  have final: "\<exists>a attr. GetGraph mg i = Some a \<and> store' a = Some attr \<and> has_style_of_index attr i"
    if dist: "distinct (map snd es)" and i: "i < length es" for i
  proof -
    from AddGraphs_prefix_style [OF assms i] obtain mg_i store_i a attr where
      pre: "AddGraphs (take (Suc i) es) (MultiGraph0, store) = Inr (mg_i, store_i)"
      and a: "snd (es ! i) = Some a" and attr: "store_i a = Some attr"
      and style: "has_style_of_index attr i"
      by blast
    have "AddGraphs (take (Suc i) es @ drop (Suc i) es) (MultiGraph0, store) = Inr (mg, store')"
      using fin by simp
    with pre have rest: "AddGraphs (drop (Suc i) es) (mg_i, store_i) = Inr (mg, store')"
      by (simp only: AddGraphs_append sum.case)
    from distinct_nth_not_later [OF dist, of i] i a
    have "Some a \<notin> set (map snd (drop (Suc i) es))"
      by (simp add: drop_map)
    with AddGraphs_Inr [OF rest] attr have "store' a = Some attr" by simp
    moreover from graphs i a n have "GetGraph mg i = Some a"
      by (simp add: GetGraph_def)
    ultimately show ?thesis using style by blast
  qed
  from fin n each final show ?thesis by blast
qed

text \<open>
  Eleven graphs added in order: entry 0 gets colour 1 and marker 3, entry 9 colour 40
  and marker 3, entry 10 colour 1 and marker 4.
\<close>

theorem AddGraphs_styles_witness:
  "(case AddGraphs [(''g0'', Some 0), (''g1'', Some 1), (''g2'', Some 2), (''g3'', Some 3),
                    (''g4'', Some 4), (''g5'', Some 5), (''g6'', Some 6), (''g7'', Some 7),
                    (''g8'', Some 8), (''g9'', Some 9), (''g10'', Some 10)]
          (MultiGraph0, fresh_graphs 11) of
      Inl e \<Rightarrow> None
    | Inr (mg, store') \<Rightarrow>
        Some (NGraphs mg,
              map (\<lambda>a. map_option (\<lambda>attr. (MarkerColor attr, MarkerStyle attr)) (store' a))
                [0, 9, 10]))
   = Some (11, [Some (1, 3), Some (40, 3), Some (1, 4)])"
proof -
  have "AddGraphs [(''g0'', Some 0), (''g1'', Some 1), (''g2'', Some 2), (''g3'', Some 3),
                    (''g4'', Some 4), (''g5'', Some 5), (''g6'', Some 6), (''g7'', Some 7),
                    (''g8'', Some 8), (''g9'', Some 9), (''g10'', Some 10)]
          (MultiGraph0, fresh_graphs 11) \<noteq> Inl e" for e
    using AddGraphs_styles [of "[(''g0'', Some 0), (''g1'', Some 1), (''g2'', Some 2),
        (''g3'', Some 3), (''g4'', Some 4), (''g5'', Some 5), (''g6'', Some 6), (''g7'', Some 7),
        (''g8'', Some 8), (''g9'', Some 9), (''g10'', Some 10)]" "fresh_graphs 11"]
    by (auto simp add: fresh_graphs_def dom_def)
  then show ?thesis
    by (simp add: AddGraph_def FormatGraph_def Let_def MultiGraph0_def fresh_graphs_def
        NGraphs_def n_colors_def colors_def markers_def split: sum.splits)
qed

lemma AddGraphs_ok:
  "AddGraphs es (MultiGraph0, store) = Inr (mg, store') \<Longrightarrow>
     MultiGraph_ok mg \<and> mgraph mg = map snd es \<and> legend_entries mg = map fst es"
  using AddGraphs_Inr [of es MultiGraph0 store mg store']
  by (simp add: MultiGraph_ok_def MultiGraph0_def)

text \<open>
  Claim C9. In every state of a \<^verbatim>\<open>MultiGraph\<close> (its two vectors have the same
  length), and for every index \<open>i\<close>: \<^verbatim>\<open>GetGraph(i)\<close> is the stored pointer when
  \<open>i < NGraphs()\<close> and null otherwise, and \<^verbatim>\<open>GetLegendEntry(i)\<close> is the stored
  label when \<open>i < NGraphs()\<close> and the empty string otherwise, with no fault. The states
  reached from a fresh object by calls of \<^verbatim>\<open>AddGraph\<close> are such states, and there the
  stored pointer and label of index \<open>i\<close> are those of the call number \<open>i\<close>.
\<close>

theorem MultiGraph_accessors:
  "(MultiGraph_ok mg \<longrightarrow>
      GetGraph mg i = (if i < NGraphs mg then mgraph mg ! i else None) \<and>
      GetLegendEntry mg i = Inr (if i < NGraphs mg then legend_entries mg ! i else [])) \<and>
   (AddGraphs es (MultiGraph0, store) = Inr (mg, store') \<longrightarrow>
      MultiGraph_ok mg \<and> NGraphs mg = length es \<and>
      GetGraph mg i = (if i < length es then snd (es ! i) else None) \<and>
      GetLegendEntry mg i = Inr (if i < length es then fst (es ! i) else []))"
proof (intro conjI impI)
  assume "MultiGraph_ok mg"
  then show "GetLegendEntry mg i = Inr (if i < NGraphs mg then legend_entries mg ! i else [])"
    by (simp add: GetLegendEntry_def MultiGraph_ok_def NGraphs_def)
next
  show "GetGraph mg i = (if i < NGraphs mg then mgraph mg ! i else None)"
    by (simp add: GetGraph_def)
next
  assume "AddGraphs es (MultiGraph0, store) = Inr (mg, store')"
  from AddGraphs_ok [OF this]
  have ok: "MultiGraph_ok mg" and g: "mgraph mg = map snd es" and l: "legend_entries mg = map fst es"
    by simp_all
  from ok show "MultiGraph_ok mg" .
  from g show "NGraphs mg = length es" by (simp add: NGraphs_def)
  from g show "GetGraph mg i = (if i < length es then snd (es ! i) else None)"
    by (simp add: GetGraph_def NGraphs_def)
  from g l show "GetLegendEntry mg i = Inr (if i < length es then fst (es ! i) else [])"
    by (simp add: GetLegendEntry_def NGraphs_def)
qed

text \<open>Two graphs added; the indices 1 (the last entry) and 2 (out of range).\<close>

theorem MultiGraph_accessors_witness:
  "AddGraphs [(''first'', Some 0), (''second'', Some 1)] (MultiGraph0, fresh_graphs 2)
     = Inr (\<lparr>mgraph = [Some 0, Some 1], legend_entries = [''first'', ''second'']\<rparr>,
            (fresh_graphs 2)
              (0 \<mapsto> \<lparr>MarkerSize = 1, MarkerColor = 1, MarkerStyle = 3, LineColor = 1,
                      LineWidth = 2, LineStyle = 1\<rparr>,
               1 \<mapsto> \<lparr>MarkerSize = 1, MarkerColor = 2, MarkerStyle = 3, LineColor = 2,
                      LineWidth = 2, LineStyle = 1\<rparr>)) \<and>
   GetGraph \<lparr>mgraph = [Some 0, Some 1], legend_entries = [''first'', ''second'']\<rparr> 1 = Some 1 \<and>
   GetGraph \<lparr>mgraph = [Some 0, Some 1], legend_entries = [''first'', ''second'']\<rparr> 2 = None \<and>
   GetLegendEntry \<lparr>mgraph = [Some 0, Some 1], legend_entries = [''first'', ''second'']\<rparr> 1
     = Inr ''second'' \<and>
   GetLegendEntry \<lparr>mgraph = [Some 0, Some 1], legend_entries = [''first'', ''second'']\<rparr> 2
     = Inr []"
proof -
  have run: "AddGraphs [(''first'', Some 0), (''second'', Some 1)] (MultiGraph0, fresh_graphs 2)
     = Inr (\<lparr>mgraph = [Some 0, Some 1], legend_entries = [''first'', ''second'']\<rparr>,
            (fresh_graphs 2)
              (0 \<mapsto> \<lparr>MarkerSize = 1, MarkerColor = 1, MarkerStyle = 3, LineColor = 1,
                      LineWidth = 2, LineStyle = 1\<rparr>,
               1 \<mapsto> \<lparr>MarkerSize = 1, MarkerColor = 2, MarkerStyle = 3, LineColor = 2,
                      LineWidth = 2, LineStyle = 1\<rparr>))"
    by (simp add: AddGraph_def FormatGraph_def Let_def MultiGraph0_def fresh_graphs_def
        n_colors_def colors_def markers_def)
  note acc = MultiGraph_accessors [of "\<lparr>mgraph = [Some 0, Some 1],
      legend_entries = [''first'', ''second'']\<rparr>" _ "[(''first'', Some 0), (''second'', Some 1)]"
      "fresh_graphs 2", THEN conjunct2, rule_format, OF run]
  from run acc [of 1] acc [of 2] show ?thesis by simp
qed

text \<open>
  Claim C10. In every state of a \<^verbatim>\<open>MultiGraph\<close>, a call \<^verbatim>\<open>AddGraph(label, graph)\<close>
  that returns has increased \<^verbatim>\<open>NGraphs()\<close> by one; for every index below the old
  count \<^verbatim>\<open>GetGraph\<close> and \<^verbatim>\<open>GetLegendEntry\<close> return what they returned before; the
  new entry holds the pointer and the label of the call; and in the store only the graph
  the new pointer points to has changed (an older entry that holds the same pointer
  shares that graph). The call returns when fewer than 140 graphs are held and the graph
  is live.
\<close>

theorem AddGraph_frame:
  assumes "MultiGraph_ok mg"
  shows "(\<forall>mg' store'. AddGraph l p (mg, store) = Inr (mg', store') \<longrightarrow>
            NGraphs mg' = NGraphs mg + 1 \<and> MultiGraph_ok mg' \<and>
            (\<forall>j<NGraphs mg. GetGraph mg' j = GetGraph mg j \<and>
                             GetLegendEntry mg' j = GetLegendEntry mg j) \<and>
            GetGraph mg' (NGraphs mg) = p \<and> GetLegendEntry mg' (NGraphs mg) = Inr l \<and>
            (\<forall>a. Some a \<noteq> p \<longrightarrow> store' a = store a)) \<and>
         (NGraphs mg < 140 \<and> (\<exists>a. p = Some a \<and> a \<in> dom store) \<longrightarrow>
            (\<exists>mg' store'. AddGraph l p (mg, store) = Inr (mg', store')))"
proof (intro conjI allI impI)
  fix mg' store'
  assume add: "AddGraph l p (mg, store) = Inr (mg', store')"
  from AddGraph_Inr [OF add] obtain a attr attr' where
    p: "p = Some a" and live: "store a = Some attr"
    and mg': "mg' = mg\<lparr>mgraph := mgraph mg @ [p], legend_entries := legend_entries mg @ [l]\<rparr>"
    and store': "store' = store(a \<mapsto> attr')"
    by blast
  from mg' show "NGraphs mg' = NGraphs mg + 1" by (simp add: NGraphs_def)
  from mg' assms show "MultiGraph_ok mg'" by (simp add: MultiGraph_ok_def)
  from mg' show "GetGraph mg' (NGraphs mg) = p" by (simp add: GetGraph_def NGraphs_def)
  from mg' assms show "GetLegendEntry mg' (NGraphs mg) = Inr l"
    by (simp add: GetLegendEntry_def NGraphs_def MultiGraph_ok_def nth_append)
  {
    fix j assume "j < NGraphs mg"
    with mg' assms show "GetGraph mg' j = GetGraph mg j"
      and "GetLegendEntry mg' j = GetLegendEntry mg j"
      by (simp_all add: GetGraph_def GetLegendEntry_def NGraphs_def MultiGraph_ok_def nth_append)
  }
  {
    fix b assume "Some b \<noteq> p"
    with p store' show "store' b = store b" by simp
  }
next
  assume "NGraphs mg < 140 \<and> (\<exists>a. p = Some a \<and> a \<in> dom store)"
  then obtain a attr where "NGraphs mg < 140" and "p = Some a" and "store a = Some attr"
    by auto
  with AddGraph_result [of mg store a attr l]
  show "\<exists>mg' store'. AddGraph l p (mg, store) = Inr (mg', store')" by simp
qed

text \<open>A third graph added to a \<^verbatim>\<open>MultiGraph\<close> of two.\<close>

theorem AddGraph_frame_witness:
  "AddGraph ''third'' (Some 2)
     (\<lparr>mgraph = [Some 0, Some 1], legend_entries = [''first'', ''second'']\<rparr>, fresh_graphs 3)
     = Inr (\<lparr>mgraph = [Some 0, Some 1, Some 2],
              legend_entries = [''first'', ''second'', ''third'']\<rparr>,
            (fresh_graphs 3)
              (2 \<mapsto> \<lparr>MarkerSize = 1, MarkerColor = 4, MarkerStyle = 3, LineColor = 4,
                      LineWidth = 2, LineStyle = 1\<rparr>))"
proof -
  have ok: "MultiGraph_ok \<lparr>mgraph = [Some 0, Some 1], legend_entries = [''first'', ''second'']\<rparr>"
    by (simp add: MultiGraph_ok_def)
  have "AddGraph ''third'' (Some 2)
     (\<lparr>mgraph = [Some 0, Some 1], legend_entries = [''first'', ''second'']\<rparr>, fresh_graphs 3)
     \<noteq> Inl e" for e
    using AddGraph_frame [OF ok, of "''third''" "Some 2" "fresh_graphs 3"]
    by (auto simp add: NGraphs_def fresh_graphs_def dom_def)
  then show ?thesis
    by (simp add: AddGraph_def FormatGraph_def Let_def fresh_graphs_def
        n_colors_def colors_def markers_def)
qed

end
